theory Spec2Isabelle
  imports Complex_Main
begin

section \<open>The file size histogram script\<close>

text \<open>
  A model of \<^verbatim>\<open>filesizehistogram.py\<close>: the size formatter \<^verbatim>\<open>numfmt\<close>, and the main
  program from the command line to the values handed to the plotting library.

  Python integers are \<open>int\<close>.  A Python float is modelled by the rational number it
  denotes: every finite double is a rational, the division of a double of at least 1024
  by 1024 is exact, and \<^verbatim>\<open>.2f\<close> rounds the exact value of the double to two decimals,
  ties to the even digit.  Where the program makes a float from integers (the mean, the
  median, the total as a float) the model rounds to the nearest double.  The samples are
  taken to fit numpy's 64-bit integers.
\<close>

subsection \<open>The size formatter\<close>

datatype pyval = PyInt int | PyFloat rat

definition marks :: string where
  "marks = ''KMGTP''"

fun is_float :: "pyval \<Rightarrow> bool" where
  "is_float (PyInt n) = False"
| "is_float (PyFloat r) = True"

fun ge_1024 :: "pyval \<Rightarrow> bool" where
  "ge_1024 (PyInt n) = (1024 \<le> n)"
| "ge_1024 (PyFloat r) = (1024 \<le> r)"

fun div_1024 :: "pyval \<Rightarrow> pyval" where
  "div_1024 (PyInt n) = PyInt (n div 1024)"
| "div_1024 (PyFloat r) = PyFloat (r / 1024)"

text \<open>
  The loop \<^verbatim>\<open>while s >= 1024 and m < len(marks)\<close>: the state is the value and the
  number of divisions done so far.
\<close>

function numfmt_loop :: "pyval \<Rightarrow> nat \<Rightarrow> pyval \<times> nat" where
  "numfmt_loop s m =
     (if ge_1024 s \<and> m < length marks then numfmt_loop (div_1024 s) (m + 1) else (s, m))"
  by pat_completeness auto
termination
  by (relation "measure (\<lambda>(s, m). length marks - m)") auto

declare numfmt_loop.simps [simp del]

text \<open>
  The slice \<^verbatim>\<open>marks[m-1:m]\<close>: a negative bound counts from the end, and both bounds
  are clipped to the string.  For \<open>m = 0\<close> the slice runs from the last character to
  position 0 and is empty.
\<close>

definition norm_index :: "nat \<Rightarrow> int \<Rightarrow> nat" where
  "norm_index n i = (if i < 0 then nat (max 0 (int n + i)) else min (nat i) n)"

definition py_slice :: "'a list \<Rightarrow> int \<Rightarrow> int \<Rightarrow> 'a list" where
  "py_slice xs i j =
     (let lo = norm_index (length xs) i; hi = norm_index (length xs) j
      in take (hi - lo) (drop lo xs))"

text \<open>The decimal representation of an integer, as \<^verbatim>\<open>str\<close> and an f-string give it.\<close>

definition digit_char :: "int \<Rightarrow> char" where
  "digit_char d = ''0123456789'' ! nat d"

function str_nonneg :: "int \<Rightarrow> string" where
  "str_nonneg n = (if n < 10 then [digit_char n] else str_nonneg (n div 10) @ [digit_char (n mod 10)])"
  by pat_completeness auto
termination
  by (relation "measure nat") auto

declare str_nonneg.simps [simp del]

definition str_int :: "int \<Rightarrow> string" where
  "str_int i = (if i < 0 then ''-'' @ str_nonneg (- i) else str_nonneg i)"

text \<open>
  The format \<^verbatim>\<open>.2f\<close>: the value in hundredths, rounded to the nearest integer and to
  the even one at a tie, then printed with the decimal point before the last two digits.
\<close>

definition round_half_even :: "rat \<Rightarrow> int" where
  "round_half_even x =
     (let f = \<lfloor>x\<rfloor>; d = x - of_int f
      in if 1 / 2 < d \<or> (d = 1 / 2 \<and> odd f) then f + 1 else f)"

definition format_2f :: "rat \<Rightarrow> string" where
  "format_2f r =
     (let q = round_half_even (\<bar>r\<bar> * 100)
      in (if r < 0 then ''-'' else '''') @ str_nonneg (q div 100) @ ''.'' @
         [digit_char (q mod 100 div 10), digit_char (q mod 10)])"

fun render :: "pyval \<Rightarrow> string" where
  "render (PyInt n) = str_int n"
| "render (PyFloat r) = format_2f r"

definition mark_of :: "nat \<Rightarrow> string" where
  "mark_of m = py_slice marks (int m - 1) (int m)"

definition numfmt :: "pyval \<Rightarrow> string" where
  "numfmt s0 = (case numfmt_loop s0 0 of (s, m) \<Rightarrow> render s @ mark_of m)"




subsection \<open>Errors and outcomes\<close>

text \<open>
  The script catches nothing: every exception ends the run.  The constructors name the
  place that raises: \<open>IntValueError\<close> is the \<^verbatim>\<open>ValueError\<close> of \<^verbatim>\<open>int()\<close>,
  \<open>ZeroSizeReduction\<close> the \<^verbatim>\<open>ValueError\<close> of \<^verbatim>\<open>data.max()\<close> on an empty array,
  \<open>MathDomainError\<close> the \<^verbatim>\<open>ValueError\<close> of \<^verbatim>\<open>math.log2\<close> on a value that is not
  positive, \<open>CannotOpen\<close> the \<^verbatim>\<open>OSError\<close> of \<^verbatim>\<open>open\<close>.
\<close>

datatype py_error = IntValueError | ZeroSizeReduction | MathDomainError | CannotOpen

subsection \<open>Reading the samples: \<^verbatim>\<open>int(x.split(' ')[0])\<close>\<close>

fun py_split :: "char \<Rightarrow> string \<Rightarrow> string list" where
  "py_split sep [] = [[]]"
| "py_split sep (c # cs) =
     (if c = sep then [] # py_split sep cs
      else (case py_split sep cs of
              [] \<Rightarrow> [[c]]
            | w # ws \<Rightarrow> (c # w) # ws))"

definition first_field :: "string \<Rightarrow> string" where
  "first_field x = (case py_split (CHR '' '') x of [] \<Rightarrow> [] | w # ws \<Rightarrow> w)"

text \<open>
  A line is a string of characters with code points below 256.  Of these, \<^verbatim>\<open>int()\<close>
  strips from both ends the tab, the line feed, the vertical tab, the form feed, the
  carriage return and the space, and the two further white-space characters 0x85 and
  0xA0.  The separators 0x1C to 0x1F are not stripped, and the only decimal digits
  among these code points are \<open>0\<close> to \<open>9\<close>.
\<close>

definition py_isspace :: "char \<Rightarrow> bool" where
  "py_isspace c = (c \<in> set [CHR 0x09, CHR 0x0A, CHR 0x0B, CHR 0x0C, CHR 0x0D, CHR 0x20,
                             CHR 0x85, CHR 0xA0])"

definition py_strip :: "string \<Rightarrow> string" where
  "py_strip s = rev (dropWhile py_isspace (rev (dropWhile py_isspace s)))"

definition is_digit :: "char \<Rightarrow> bool" where
  "is_digit c = (c \<in> set ''0123456789'')"

definition digit_val :: "char \<Rightarrow> int" where
  "digit_val c = of_char c - 48"

text \<open>
  The digits of a literal, read left to right into an accumulator.  One underscore may
  stand between two digits, nowhere else.
\<close>

fun parse_digits :: "string \<Rightarrow> int \<Rightarrow> int option" where
  "parse_digits [] acc = Some acc"
| "parse_digits (c # cs) acc =
     (if is_digit c then parse_digits cs (acc * 10 + digit_val c)
      else if c = CHR ''_'' then
        (case cs of
           [] \<Rightarrow> None
         | d # ds \<Rightarrow> if is_digit d then parse_digits cs acc else None)
      else None)"

definition parse_unsigned :: "string \<Rightarrow> int option" where
  "parse_unsigned s =
     (case s of
        [] \<Rightarrow> None
      | c # cs \<Rightarrow> if is_digit c then parse_digits s 0 else None)"

text \<open>
  The interpreter refuses to convert a literal of more digits than its limit for the
  conversion between strings and integers, 4300 unless it is configured otherwise; the
  leading zeros count and the underscores do not.  This is a \<^verbatim>\<open>ValueError\<close> as well.
\<close>

definition int_max_str_digits :: int where
  "int_max_str_digits = 4300"

primrec digit_count :: "string \<Rightarrow> int" where
  "digit_count [] = 0"
| "digit_count (c # cs) = (if is_digit c then 1 else 0) + digit_count cs"

definition py_int :: "string \<Rightarrow> py_error + int" where
  "py_int s =
     (let t = py_strip s;
          (neg, body) =
             (case t of
                [] \<Rightarrow> (False, [])
              | c # cs \<Rightarrow>
                  if c = CHR ''-'' then (True, cs)
                  else if c = CHR ''+'' then (False, cs)
                  else (False, t))
      in case parse_unsigned body of
           None \<Rightarrow> Inl IntValueError
         | Some n \<Rightarrow>
             if int_max_str_digits < digit_count body then Inl IntValueError
             else Inr (if neg then - n else n))"

text \<open>The list comprehension: the lines in order, the first failure ends the run.\<close>

fun load :: "string list \<Rightarrow> py_error + int list" where
  "load [] = Inr []"
| "load (x # xs) =
     (case py_int (first_field x) of
        Inl e \<Rightarrow> Inl e
      | Inr v \<Rightarrow> (case load xs of Inl e \<Rightarrow> Inl e | Inr vs \<Rightarrow> Inr (v # vs)))"

subsection \<open>Bucket edges\<close>

text \<open>
  \<^verbatim>\<open>ceil(log2(n))\<close> for a positive integer \<open>n\<close> is the least \<open>k\<close> with \<open>n \<le> 2 ^ k\<close>.
  \<^verbatim>\<open>math.log2\<close> is exact at the powers of two and, below \<open>2 ^ 31\<close>, tells every other
  integer from them, so that the ceiling of the double is this number; above
  \<open>2 ^ 31\<close> the \<^verbatim>\<open>min\<close> with 31 hides the value.  Zero and negative arguments raise.
\<close>

function clog2 :: "int \<Rightarrow> nat" where
  "clog2 n = (if n \<le> 1 then 0 else Suc (clog2 ((n + 1) div 2)))"
  by pat_completeness auto
termination
  by (relation "measure nat") auto

declare clog2.simps [simp del]

definition ceil_log2 :: "int \<Rightarrow> py_error + nat" where
  "ceil_log2 n = (if n \<le> 0 then Inl MathDomainError else Inr (clog2 n))"

definition data_max :: "int list \<Rightarrow> py_error + int" where
  "data_max xs = (case xs of [] \<Rightarrow> Inl ZeroSizeReduction | y # ys \<Rightarrow> Inr (fold max ys y))"

definition mindatalog2 :: nat where
  "mindatalog2 = 5"

definition maxdatalog2 :: "int list \<Rightarrow> py_error + nat" where
  "maxdatalog2 xs =
     (case data_max xs of
        Inl e \<Rightarrow> Inl e
      | Inr mx \<Rightarrow> (case ceil_log2 mx of Inl e \<Rightarrow> Inl e | Inr k \<Rightarrow> Inr (min k 31)))"

definition bins_of :: "nat \<Rightarrow> int list" where
  "bins_of k = [0, 1] @ map (\<lambda>x. 2 ^ x) [mindatalog2 ..< k + 1]"

subsection \<open>Statistics and the position of their markers\<close>

text \<open>
  The double nearest to a rational, ties to the even significand: for \<open>x\<close> with
  \<open>2 ^ e \<le> \<bar>x\<bar> < 2 ^ (e + 1)\<close> the multiples of \<open>2 ^ (e - 52)\<close> are the doubles around it,
  and below \<open>2 ^ - 1022\<close> those of \<open>2 ^ - 1074\<close>.  No value of this program reaches the
  largest double.
\<close>

function log2_ge1 :: "rat \<Rightarrow> int" where
  "log2_ge1 x = (if x < 2 then 0 else 1 + log2_ge1 (x / 2))"
  by pat_completeness auto
termination
proof (relation "measure (\<lambda>x. nat \<lfloor>x\<rfloor>)")
  show "wf (measure (\<lambda>x. nat \<lfloor>x\<rfloor>))" by simp
next
  fix x :: rat
  assume "\<not> x < 2"
  then have x: "2 \<le> x" by simp
  then have "(2::int) \<le> \<lfloor>x\<rfloor>" by (simp add: le_floor_iff)
  moreover have "x / 2 < of_int \<lfloor>x\<rfloor>"
  proof -
    have a: "x < of_int \<lfloor>x\<rfloor> + 1" by linarith
    have b: "(2::rat) \<le> of_int \<lfloor>x\<rfloor>"
      using \<open>2 \<le> \<lfloor>x\<rfloor>\<close> by (simp only: of_int_numeral_le_iff)
    from a b show ?thesis by linarith
  qed
  then have "\<lfloor>x / 2\<rfloor> < \<lfloor>x\<rfloor>" by (simp add: floor_less_iff)
  ultimately show "(x / 2, x) \<in> measure (\<lambda>x. nat \<lfloor>x\<rfloor>)" by simp
qed

declare log2_ge1.simps [simp del]

function log2_lt1 :: "rat \<Rightarrow> int" where
  "log2_lt1 x = (if x \<le> 0 \<or> 1 \<le> x then 0 else log2_lt1 (2 * x) - 1)"
  by pat_completeness auto
termination
proof (relation "measure (\<lambda>x. nat \<lfloor>1 / x\<rfloor>)")
  show "wf (measure (\<lambda>x. nat \<lfloor>1 / x\<rfloor>))" by simp
next
  fix x :: rat
  assume "\<not> (x \<le> 0 \<or> 1 \<le> x)"
  then have x: "0 < x" "x < 1" by simp_all
  define y where "y = 1 / x"
  have y: "1 < y" using x by (simp add: y_def)
  then have "(1::int) \<le> \<lfloor>y\<rfloor>" by (simp add: le_floor_iff)
  have "y / 2 < of_int \<lfloor>y\<rfloor>"
  proof -
    have a: "y < of_int \<lfloor>y\<rfloor> + 1" by linarith
    have b: "(1::rat) \<le> of_int \<lfloor>y\<rfloor>"
      using \<open>1 \<le> \<lfloor>y\<rfloor>\<close> by (simp only: of_int_1_le_iff)
    from a b show ?thesis by linarith
  qed
  then have lt: "\<lfloor>y / 2\<rfloor> < \<lfloor>y\<rfloor>" by (simp add: floor_less_iff)
  have e: "1 / (2 * x) = y / 2" by (simp add: y_def)
  have p: "0 < \<lfloor>1 / x\<rfloor>" using \<open>1 \<le> \<lfloor>y\<rfloor>\<close> unfolding y_def by linarith
  have q: "\<lfloor>1 / (2 * x)\<rfloor> < \<lfloor>1 / x\<rfloor>" using lt unfolding e unfolding y_def .
  show "(2 * x, x) \<in> measure (\<lambda>x. nat \<lfloor>1 / x\<rfloor>)"
    unfolding in_measure zless_nat_conj using p q by blast
qed

declare log2_lt1.simps [simp del]

definition floor_log2 :: "rat \<Rightarrow> int" where
  "floor_log2 x = (if 1 \<le> x then log2_ge1 x else log2_lt1 x)"

definition pow2 :: "int \<Rightarrow> rat" where
  "pow2 e = (if 0 \<le> e then 2 ^ nat e else 1 / 2 ^ nat (- e))"

definition to_double :: "rat \<Rightarrow> rat" where
  "to_double x =
     (if x = 0 then 0
      else
        (let e = max (floor_log2 \<bar>x\<bar>) (- 1022) - 52;
             m = round_half_even (\<bar>x\<bar> / pow2 e)
         in (if x < 0 then - 1 else 1) * of_int m * pow2 e))"

text \<open>
  \<^verbatim>\<open>np.median\<close> sorts and takes the middle sample, or the mean of the two middle ones;
  \<^verbatim>\<open>data.mean()\<close> adds the samples as doubles and divides by their number.  Both are
  the quotient rounded once, as long as the sum of the absolute values of the samples
  stays below \<open>2 ^ 53\<close>, where adding them is exact.
\<close>

definition median :: "int list \<Rightarrow> rat" where
  "median xs =
     (let s = sort xs; n = length s
      in if odd n then to_double (of_int (s ! (n div 2)))
         else to_double ((of_int (s ! (n div 2 - 1)) + of_int (s ! (n div 2))) / 2))"

definition mean :: "int list \<Rightarrow> rat" where
  "mean xs = to_double (of_int (sum_list xs) / of_nat (length xs))"

text \<open>\<^verbatim>\<open>data.sum()\<close> adds in 64-bit integers and wraps around.\<close>

definition wrap_int64 :: "int \<Rightarrow> int" where
  "wrap_int64 s = (s + 2 ^ 63) mod 2 ^ 64 - 2 ^ 63"

function bisect_loop :: "rat list \<Rightarrow> rat \<Rightarrow> nat \<Rightarrow> nat \<Rightarrow> nat" where
  "bisect_loop a x lo hi =
     (if lo < hi then
        (let mid = (lo + hi) div 2
         in if a ! mid < x then bisect_loop a x (mid + 1) hi else bisect_loop a x lo mid)
      else lo)"
  by pat_completeness auto
termination
  by (relation "measure (\<lambda>(a, x, lo, hi). hi - lo)") auto

declare bisect_loop.simps [simp del]

definition bisect_left :: "int list \<Rightarrow> rat \<Rightarrow> nat" where
  "bisect_left a x = bisect_loop (map of_int a) x 0 (length a)"

subsection \<open>The histogram\<close>

text \<open>
  \<^verbatim>\<open>np.histogram(data, bins)\<close> with explicit edges returns one count for each pair of
  neighbouring edges.  Every bin is closed on the left and open on the right, except the
  last one, which is closed on both sides.  A sample below the first edge or above the
  last edge is in no bin.
\<close>

definition in_bin :: "int list \<Rightarrow> nat \<Rightarrow> int \<Rightarrow> bool" where
  "in_bin edges i s =
     (edges ! i \<le> s \<and>
      (if i + 2 = length edges then s \<le> edges ! (i + 1) else s < edges ! (i + 1)))"

definition np_histogram :: "int list \<Rightarrow> int list \<Rightarrow> nat list" where
  "np_histogram xs edges =
     map (\<lambda>i. length (filter (in_bin edges i) xs)) [0 ..< length edges - 1]"

subsection \<open>The run\<close>

record chart =
  bins :: "int list"
  hist :: "nat list"
  bmedian :: int
  bmean :: int
  files :: nat
  total :: int
  xticklabels :: "string list"
  mean_text :: string
  median_text :: string
  files_text :: string
  total_text :: string

datatype outcome = SysExit "string list" int | Uncaught py_error | Shown chart

text \<open>The decoration of a tick label is U+250A and a line feed, here in UTF-8.\<close>

definition tick_mark :: string where
  "tick_mark = [CHR 0xE2, CHR 0x94, CHR 0x8A, CHR 0x0A]"

definition xticklabels_of :: "int list \<Rightarrow> nat \<Rightarrow> string list" where
  "xticklabels_of edges n =
     map (\<lambda>i. concat (replicate (i mod 3) tick_mark) @
               numfmt (PyInt (edges ! i)) @ ''~'' @ numfmt (PyInt (edges ! (i + 1))))
         [0 ..< n - 1]
     @ [numfmt (PyInt (edges ! (n - 1))) @ ''~'']"

definition analyse :: "int list \<Rightarrow> outcome" where
  "analyse xs =
     (case maxdatalog2 xs of
        Inl e \<Rightarrow> Uncaught e
      | Inr k \<Rightarrow>
          (let edges = bins_of k;
               md = median xs;
               mn = mean xs;
               h = np_histogram xs edges
           in Shown \<lparr> bins = edges,
                      hist = h,
                      bmedian = int (bisect_left edges md) - 1,
                      bmean = int (bisect_left edges mn) - 1,
                      files = length xs,
                      total = wrap_int64 (sum_list xs),
                      xticklabels = xticklabels_of edges (length h),
                      mean_text = ''Mean: '' @ numfmt (PyFloat mn),
                      median_text = ''Median: '' @ numfmt (PyFloat md),
                      files_text = ''Files: '' @ str_int (int (length xs)),
                      total_text =
                        ''Total: '' @
                        numfmt (PyFloat (to_double (of_int (wrap_int64 (sum_list xs))))) \<rparr>))"

definition usage :: "string list" where
  \<open>usage =
     [''Usage: filesizehistogram.py input'',
      ''       can use "-" as input filename, indicate input is taken from stdin.'',
      ''       otherwise input file should be a result of "find -printf '%s %p'"'']\<close>

text \<open>
  The file system is a function from a path to the lines that iterating over the opened
  file yields, each with its line end; \<open>None\<close> is a path that cannot be opened.
\<close>

definition main :: "string list \<Rightarrow> (string \<Rightarrow> string list option) \<Rightarrow> outcome" where
  "main argv fs =
     (if length argv < 2 then SysExit usage 1
      else
        (let filename = argv ! 1;
             filename = (if filename = ''-'' then ''/dev/stdin'' else filename)
         in case fs filename of
              None \<Rightarrow> Uncaught CannotOpen
            | Some ls \<Rightarrow> (case load ls of Inl e \<Rightarrow> Uncaught e | Inr xs \<Rightarrow> analyse xs)))"

subsection \<open>Integer literals, for stating what the loader reads\<close>











section \<open>Properties of the formatter, the loader and the pipeline\<close>

lemma loop_int_shape:
  "s = PyInt n \<Longrightarrow>
   m \<le> snd (numfmt_loop s m) \<and>
   fst (numfmt_loop s m) = PyInt (n div 1024 ^ (snd (numfmt_loop s m) - m))"
proof (induction s m arbitrary: n rule: numfmt_loop.induct)
  case (1 s m)
  show ?case
  proof (cases "ge_1024 s \<and> m < length marks")
    case True
    let ?r = "numfmt_loop (div_1024 s) (m + 1)"
    have step: "numfmt_loop s m = ?r"
      using True by (subst numfmt_loop.simps) simp
    have d: "div_1024 s = PyInt (n div 1024)" using "1.prems" by simp
    from "1.IH"[OF True d]
    have le: "m + 1 \<le> snd ?r" and v: "fst ?r = PyInt (n div 1024 div 1024 ^ (snd ?r - (m + 1)))"
      by simp_all
    have e: "snd ?r - m = Suc (snd ?r - (m + 1))" using le by simp
    have "n div 1024 div 1024 ^ (snd ?r - (m + 1)) = n div 1024 ^ (snd ?r - m)"
      unfolding e by (simp add: zdiv_zmult2_eq)
    with le v step show ?thesis by simp
  next
    case False
    then have "numfmt_loop s m = (s, m)" by (subst numfmt_loop.simps) auto
    then show ?thesis using "1.prems" by simp
  qed
qed

lemma loop_count_bound: "snd (numfmt_loop s m) \<le> max m 5"
proof (induction s m rule: numfmt_loop.induct)
  case (1 s m)
  show ?case
  proof (cases "ge_1024 s \<and> m < length marks")
    case True
    then have "numfmt_loop s m = numfmt_loop (div_1024 s) (m + 1)"
      by (subst numfmt_loop.simps) simp
    moreover have "m < 5" using True by (simp add: marks_def)
    ultimately show ?thesis using "1.IH"[OF True] by simp
  next
    case False
    then have "numfmt_loop s m = (s, m)" by (subst numfmt_loop.simps) auto
    then show ?thesis by simp
  qed
qed

lemma loop_int_big:
  "1024 ^ k \<le> n \<Longrightarrow> m + k \<le> 5 \<Longrightarrow>
   numfmt_loop (PyInt n) m = numfmt_loop (PyInt (n div 1024 ^ k)) (m + k)"
proof (induction k arbitrary: n m)
  case 0
  then show ?case by simp
next
  case (Suc k)
  have p: "(1024::int) ^ Suc k = 1024 * 1024 ^ k" by simp
  have big: "1024 \<le> n"
  proof -
    have a: "(1024::int) \<le> 1024 * 1024 ^ k"
      using mult_left_mono[of 1 "1024 ^ k" "1024::int"] by simp
    have b: "1024 * 1024 ^ k \<le> n" using Suc.prems(1) by simp
    from a b show ?thesis by (rule order_trans)
  qed
  have lt: "m < length marks" using Suc.prems(2) by (simp add: marks_def)
  have step: "numfmt_loop (PyInt n) m = numfmt_loop (PyInt (n div 1024)) (m + 1)"
    using big lt by (subst numfmt_loop.simps) simp
  have "(1024 * 1024 ^ k) div 1024 \<le> n div (1024::int)"
    using Suc.prems(1) by (intro zdiv_mono1) simp_all
  then have "1024 ^ k \<le> n div 1024" by simp
  from Suc.IH[OF this, of "m + 1"] Suc.prems(2)
  have "numfmt_loop (PyInt (n div 1024)) (m + 1) =
        numfmt_loop (PyInt (n div 1024 div 1024 ^ k)) (m + 1 + k)" by simp
  with step show ?case by (simp add: zdiv_zmult2_eq)
qed


lemma loop_float_shape:
  "s = PyFloat r \<Longrightarrow>
   m \<le> snd (numfmt_loop s m) \<and>
   fst (numfmt_loop s m) = PyFloat (r / 1024 ^ (snd (numfmt_loop s m) - m))"
proof (induction s m arbitrary: r rule: numfmt_loop.induct)
  case (1 s m)
  show ?case
  proof (cases "ge_1024 s \<and> m < length marks")
    case True
    let ?r = "numfmt_loop (div_1024 s) (m + 1)"
    have step: "numfmt_loop s m = ?r"
      using True by (subst numfmt_loop.simps) simp
    have d: "div_1024 s = PyFloat (r / 1024)" using "1.prems" by simp
    from "1.IH"[OF True d]
    have le: "m + 1 \<le> snd ?r" and v: "fst ?r = PyFloat (r / 1024 / 1024 ^ (snd ?r - (m + 1)))"
      by simp_all
    have e: "snd ?r - m = Suc (snd ?r - (m + 1))" using le by simp
    have "r / 1024 / 1024 ^ (snd ?r - (m + 1)) = r / 1024 ^ (snd ?r - m)"
      unfolding e by simp
    with le v step show ?thesis by simp
  next
    case False
    then have "numfmt_loop s m = (s, m)" by (subst numfmt_loop.simps) auto
    then show ?thesis using "1.prems" by simp
  qed
qed

lemma loop_stops:
  "\<not> ge_1024 (fst (numfmt_loop s m)) \<or> length marks \<le> snd (numfmt_loop s m)"
proof (induction s m rule: numfmt_loop.induct)
  case (1 s m)
  show ?case
  proof (cases "ge_1024 s \<and> m < length marks")
    case True
    then have "numfmt_loop s m = numfmt_loop (div_1024 s) (m + 1)"
      by (subst numfmt_loop.simps) simp
    with "1.IH"[OF True] show ?thesis by simp
  next
    case False
    then have "numfmt_loop s m = (s, m)" by (subst numfmt_loop.simps) auto
    with False show ?thesis by auto
  qed
qed

lemma digit_char_is_digit: "0 \<le> d \<Longrightarrow> d < 10 \<Longrightarrow> is_digit (digit_char d)"
proof -
  assume "0 \<le> d" and "d < 10"
  then have "d = 0 \<or> d = 1 \<or> d = 2 \<or> d = 3 \<or> d = 4 \<or> d = 5 \<or> d = 6 \<or> d = 7 \<or>
             d = 8 \<or> d = 9" by arith
  then show ?thesis by (auto simp: digit_char_def is_digit_def)
qed

lemma str_nonneg_digits: "0 \<le> n \<Longrightarrow> list_all is_digit (str_nonneg n)"
proof (induction n rule: str_nonneg.induct)
  case (1 n)
  show ?case
  proof (cases "n < 10")
    case True
    with "1.prems" show ?thesis by (subst str_nonneg.simps) (simp add: digit_char_is_digit)
  next
    case False
    have "0 \<le> n mod 10" and "n mod 10 < 10" by simp_all
    then have d: "is_digit (digit_char (n mod 10))" by (rule digit_char_is_digit)
    have "0 \<le> n div 10" using "1.prems" by simp
    with False "1.IH" have "list_all is_digit (str_nonneg (n div 10))" by simp
    with False d show ?thesis by (subst str_nonneg.simps) simp
  qed
qed

lemma dot_not_digit: "is_digit c \<Longrightarrow> c \<noteq> CHR ''.''"
  by (auto simp: is_digit_def)

lemma str_nonneg_no_dot: "0 \<le> n \<Longrightarrow> CHR ''.'' \<notin> set (str_nonneg n)"
  using str_nonneg_digits[of n] dot_not_digit by (auto simp: list_all_iff)

lemma str_int_no_dot: "CHR ''.'' \<notin> set (str_int i)"
  by (simp add: str_int_def str_nonneg_no_dot)

lemma mark_of_values:
  "mark_of 0 = []" "mark_of 1 = ''K''" "mark_of 2 = ''M''" "mark_of 3 = ''G''"
  "mark_of 4 = ''T''" "mark_of 5 = ''P''" "mark_of (Suc 0) = ''K''"
  by (simp_all add: mark_of_def py_slice_def norm_index_def marks_def)

lemma mark_of_no_dot: "k \<le> 5 \<Longrightarrow> CHR ''.'' \<notin> set (mark_of k)"
proof -
  assume "k \<le> 5"
  then have "k \<in> {0, 1, 2, 3, 4, 5}" by auto
  then show ?thesis by (auto simp: mark_of_values)
qed

lemma numfmt_int_general:
  "\<exists>k. k \<le> 5 \<and> (k = 5 \<or> n div 1024 ^ k < 1024) \<and>
       numfmt (PyInt n) = str_int (n div 1024 ^ k) @ mark_of k \<and>
       CHR ''.'' \<notin> set (numfmt (PyInt n))"
proof -
  let ?k = "snd (numfmt_loop (PyInt n) 0)"
  have f: "fst (numfmt_loop (PyInt n) 0) = PyInt (n div 1024 ^ ?k)"
    using loop_int_shape[of "PyInt n" n 0] by simp
  have b: "?k \<le> 5" using loop_count_bound[of "PyInt n" 0] by simp
  have s: "?k = 5 \<or> n div 1024 ^ ?k < 1024"
    using loop_stops[of "PyInt n" 0] f b by (auto simp: marks_def)
  have eq: "numfmt (PyInt n) = str_int (n div 1024 ^ ?k) @ mark_of ?k"
    using f by (simp add: numfmt_def split_beta)
  have "CHR ''.'' \<notin> set (numfmt (PyInt n))"
    unfolding eq using str_int_no_dot mark_of_no_dot[OF b] by simp
  with b s eq show ?thesis by blast
qed

lemma numfmt_float_general:
  "\<exists>k. k \<le> 5 \<and> (k = 5 \<or> r / 1024 ^ k < 1024) \<and>
       numfmt (PyFloat r) = format_2f (r / 1024 ^ k) @ mark_of k"
proof -
  let ?k = "snd (numfmt_loop (PyFloat r) 0)"
  have f: "fst (numfmt_loop (PyFloat r) 0) = PyFloat (r / 1024 ^ ?k)"
    using loop_float_shape[of "PyFloat r" r 0] by simp
  have b: "?k \<le> 5" using loop_count_bound[of "PyFloat r" 0] by simp
  have s: "?k = 5 \<or> r / 1024 ^ ?k < 1024"
    using loop_stops[of "PyFloat r" 0] f b by (auto simp: marks_def)
  have eq: "numfmt (PyFloat r) = format_2f (r / 1024 ^ ?k) @ mark_of ?k"
    using f by (simp add: numfmt_def split_beta)
  with b s show ?thesis by blast
qed

lemma format_2f_shape:
  "\<exists>w d1 d2. format_2f r = w @ ''.'' @ [d1, d2] \<and> CHR ''.'' \<notin> set w \<and>
              is_digit d1 \<and> is_digit d2"
proof -
  define q where "q = round_half_even (\<bar>r\<bar> * 100)"
  have "0 \<le> \<lfloor>\<bar>r\<bar> * 100\<rfloor>" by simp
  then have q0: "0 \<le> q" by (simp add: q_def round_half_even_def Let_def)
  define w where "w = (if r < 0 then ''-'' else '''') @ str_nonneg (q div 100)"
  have e: "format_2f r = w @ ''.'' @ [digit_char (q mod 100 div 10), digit_char (q mod 10)]"
    by (simp add: format_2f_def Let_def q_def w_def)
  have "q mod 100 < 100" by simp
  then have "q mod 100 div 10 < 10" by simp
  moreover have "0 \<le> q mod 100 div 10" by (simp add: pos_imp_zdiv_nonneg_iff)
  ultimately have d1: "is_digit (digit_char (q mod 100 div 10))"
    by (simp add: digit_char_is_digit)
  have "0 \<le> q mod 10" and "q mod 10 < 10" by simp_all
  then have d2: "is_digit (digit_char (q mod 10))" by (rule digit_char_is_digit)
  have "0 \<le> q div 100" using q0 by (simp add: pos_imp_zdiv_nonneg_iff)
  then have "CHR ''.'' \<notin> set w" by (simp add: w_def str_nonneg_no_dot)
  with e d1 d2 show ?thesis by blast
qed

lemma numfmt_examples:
  "numfmt (PyInt 0) = ''0''" "numfmt (PyInt 1023) = ''1023''" "numfmt (PyInt 1024) = ''1K''"
  "numfmt (PyInt 1048576) = ''1M''" "numfmt (PyFloat 1536) = ''1.50K''"
  "numfmt (PyFloat 1073741824) = ''1.00G''"
  by code_simp+









lemma underscore_not_digit: "\<not> is_digit (CHR ''_'')"
  by (simp add: is_digit_def)



























lemma analyse_fields:
  assumes "maxdatalog2 xs = Inr k"
  shows "\<exists>c. analyse xs = Shown c \<and> bins c = bins_of k \<and>
             hist c = np_histogram xs (bins_of k) \<and>
             bmedian c = int (bisect_left (bins_of k) (median xs)) - 1 \<and>
             bmean c = int (bisect_left (bins_of k) (mean xs)) - 1 \<and>
             files c = length xs \<and>
             mean_text c = ''Mean: '' @ numfmt (PyFloat (mean xs))"
  using assms by (simp add: analyse_def Let_def)

lemma analyse_raises:
  "maxdatalog2 xs = Inl e \<Longrightarrow> analyse xs = Uncaught e"
  by (simp add: analyse_def)

lemma main_reads:
  assumes "f \<noteq> ''-''" and "fs f = Some ls" and "load ls = Inr xs"
  shows "main [p, f] fs = analyse xs"
  using assms by (simp add: main_def Let_def)

lemma scenario_load:
  "load [''0 a\<newline>'', ''10 b\<newline>'', ''2000 c\<newline>'', ''3000000 d\<newline>''] =
     Inr [0, 10, 2000, 3000000]"
  by code_simp

lemma scenario_max:
  "data_max [0, 10, 2000, 3000000] = Inr 3000000"
  "maxdatalog2 [0, 10, 2000, 3000000] = Inr 22"
  by code_simp+

lemma scenario_bins:
  "bins_of 22 = [0, 1, 32, 64, 128, 256, 512, 1024, 2048, 4096, 8192, 16384, 32768,
                 65536, 131072, 262144, 524288, 1048576, 2097152, 4194304]"
  by code_simp

lemma scenario_hist:
  "np_histogram [0, 10, 2000, 3000000]
     [0, 1, 32, 64, 128, 256, 512, 1024, 2048, 4096, 8192, 16384, 32768,
      65536, 131072, 262144, 524288, 1048576, 2097152, 4194304] =
   [1, 1, 0, 0, 0, 0, 0, 1, 0, 0, 0, 0, 0, 0, 0, 0, 0, 0, 1]"
  by code_simp

lemma scenario_mean:
  "mean [0, 10, 2000, 3000000] = 7505025 / 10"
  "numfmt (PyFloat (7505025 / 10)) = ''732.91K''"
  by code_simp+

lemma big_file_load:
  "load [''4294967296 big.iso\<newline>''] = Inr [4294967296]"
  by code_simp

lemma big_file_max: "maxdatalog2 [4294967296] = Inr 31"
  by code_simp

lemma bins_31:
  "bins_of 31 = [0, 1, 32, 64, 128, 256, 512, 1024, 2048, 4096, 8192, 16384, 32768,
                 65536, 131072, 262144, 524288, 1048576, 2097152, 4194304, 8388608,
                 16777216, 33554432, 67108864, 134217728, 268435456, 536870912,
                 1073741824, 2147483648]"
  by code_simp

lemma big_file_hist:
  "np_histogram [4294967296]
     [0, 1, 32, 64, 128, 256, 512, 1024, 2048, 4096, 8192, 16384, 32768,
      65536, 131072, 262144, 524288, 1048576, 2097152, 4194304, 8388608,
      16777216, 33554432, 67108864, 134217728, 268435456, 536870912,
      1073741824, 2147483648] =
   [0, 0, 0, 0, 0, 0, 0, 0, 0, 0, 0, 0, 0, 0, 0, 0, 0, 0, 0, 0, 0, 0, 0, 0, 0, 0, 0, 0]"
  by code_simp

lemma two_big_load:
  "load [''2147483648 a\<newline>'', ''4294967296 b\<newline>''] = Inr [2147483648, 4294967296]"
  by code_simp

lemma two_big_max: "maxdatalog2 [2147483648, 4294967296] = Inr 31"
  by code_simp

lemma two_big_hist:
  "np_histogram [2147483648, 4294967296]
     [0, 1, 32, 64, 128, 256, 512, 1024, 2048, 4096, 8192, 16384, 32768,
      65536, 131072, 262144, 524288, 1048576, 2097152, 4194304, 8388608,
      16777216, 33554432, 67108864, 134217728, 268435456, 536870912,
      1073741824, 2147483648] =
   [0, 0, 0, 0, 0, 0, 0, 0, 0, 0, 0, 0, 0, 0, 0, 0, 0, 0, 0, 0, 0, 0, 0, 0, 0, 0, 0, 1]"
  by code_simp

lemma two_big_in_bin:
  "in_bin [0, 1, 32, 64, 128, 256, 512, 1024, 2048, 4096, 8192, 16384, 32768,
      65536, 131072, 262144, 524288, 1048576, 2097152, 4194304, 8388608,
      16777216, 33554432, 67108864, 134217728, 268435456, 536870912,
      1073741824, 2147483648] 27 2147483648"
  "\<not> in_bin [0, 1, 32, 64, 128, 256, 512, 1024, 2048, 4096, 8192, 16384, 32768,
      65536, 131072, 262144, 524288, 1048576, 2097152, 4194304, 8388608,
      16777216, 33554432, 67108864, 134217728, 268435456, 536870912,
      1073741824, 2147483648] 27 4294967296"
  by code_simp+

lemma edge_median_load:
  "load [''32 a\<newline>'', ''32 b\<newline>'', ''64 c\<newline>''] = Inr [32, 32, 64]"
  by code_simp

lemma edge_median_parts:
  "maxdatalog2 [32, 32, 64] = Inr 6"
  "bins_of 6 = [0, 1, 32, 64]"
  "np_histogram [32, 32, 64] [0, 1, 32, 64] = [0, 0, 3]"
  "median [32, 32, 64] = 32"
  "bisect_left [0, 1, 32, 64] 32 = 2"
  by code_simp+

lemma zero_file_parts:
  "load [''0 empty\<newline>''] = Inr [0]"
  "maxdatalog2 [0] = Inl MathDomainError"
  "maxdatalog2 [1] = Inr 0"
  "bins_of 0 = [0, 1]"
  by code_simp+

lemma str_int_1024: "str_int 1024 = ''1024''"
  by code_simp

section \<open>The claims\<close>

text \<open>
  C8.  The size formatter gives \<open>0\<close>, \<open>1023\<close>, \<open>1K\<close> and \<open>1M\<close> for the integers 0, 1023,
  1024 and 1048576, and \<open>1.50K\<close> and \<open>1.00G\<close> for the floats 1536.0 and 1073741824.0.
  In general an integer is divided by 1024 with integer division some \<open>k \<le> 5\<close> times,
  until the quotient is below 1024 or the marks are used up, and printed without a
  decimal point; a float is divided by 1024 exactly the same number of times with true
  division and printed with a decimal point followed by exactly two digits.
\<close>

theorem numfmt_examples_and_rendering:
  "numfmt (PyInt 0) = ''0'' \<and> numfmt (PyInt 1023) = ''1023'' \<and>
   numfmt (PyInt 1024) = ''1K'' \<and> numfmt (PyInt 1048576) = ''1M'' \<and>
   numfmt (PyFloat 1536) = ''1.50K'' \<and> numfmt (PyFloat 1073741824) = ''1.00G'' \<and>
   (\<exists>k. k \<le> 5 \<and> (k = 5 \<or> n div 1024 ^ k < 1024) \<and>
        numfmt (PyInt n) = str_int (n div 1024 ^ k) @ mark_of k \<and>
        CHR ''.'' \<notin> set (numfmt (PyInt n))) \<and>
   (\<exists>k. k \<le> 5 \<and> (k = 5 \<or> r / 1024 ^ k < 1024) \<and>
        numfmt (PyFloat r) = format_2f (r / 1024 ^ k) @ mark_of k) \<and>
   (\<exists>w d1 d2. format_2f x = w @ ''.'' @ [d1, d2] \<and> CHR ''.'' \<notin> set w \<and>
        is_digit d1 \<and> is_digit d2)"
  using numfmt_examples numfmt_int_general[of n] numfmt_float_general[of r]
    format_2f_shape[of x]
  by blast

text \<open>
  C9.  For the file with the four lines \<open>0 a\<close>, \<open>10 b\<close>, \<open>2000 c\<close> and \<open>3000000 d\<close> the
  loader reads the four samples 0, 10, 2000 and 3000000, their maximum is 3000000, the
  exponent of the last edge is 22, the edges are 0, 1, 32, 64 and so on up to 4194304,
  the counts add up to 4, the mean is 750502.5 and it is printed as \<open>732.91K\<close>.
\<close>

theorem end_to_end_scenario:
  "load [''0 a\<newline>'', ''10 b\<newline>'', ''2000 c\<newline>'', ''3000000 d\<newline>''] =
     Inr [0, 10, 2000, 3000000] \<and>
   data_max [0, 10, 2000, 3000000] = Inr 3000000 \<and>
   maxdatalog2 [0, 10, 2000, 3000000] = Inr 22 \<and>
   mean [0, 10, 2000, 3000000] = 7505025 / 10 \<and>
   numfmt (PyFloat (7505025 / 10)) = ''732.91K'' \<and>
   (case main [''filesizehistogram.py'', ''sizes.txt'']
           (\<lambda>p. if p = ''sizes.txt''
                then Some [''0 a\<newline>'', ''10 b\<newline>'', ''2000 c\<newline>'', ''3000000 d\<newline>'']
                else None) of
      Shown c \<Rightarrow>
        files c = 4 \<and>
        bins c = [0, 1, 32, 64, 128, 256, 512, 1024, 2048, 4096, 8192, 16384, 32768,
                  65536, 131072, 262144, 524288, 1048576, 2097152, 4194304] \<and>
        hist c = [1, 1, 0, 0, 0, 0, 0, 1, 0, 0, 0, 0, 0, 0, 0, 0, 0, 0, 1] \<and>
        sum_list (hist c) = 4 \<and>
        mean_text c = ''Mean: 732.91K''
    | _ \<Rightarrow> False)"
proof -
  let ?fs = "\<lambda>p. if p = ''sizes.txt''
                then Some [''0 a\<newline>'', ''10 b\<newline>'', ''2000 c\<newline>'', ''3000000 d\<newline>'']
                else None"
  have m: "main [''filesizehistogram.py'', ''sizes.txt''] ?fs = analyse [0, 10, 2000, 3000000]"
    by (rule main_reads[OF _ _ scenario_load]) simp_all
  from analyse_fields[OF scenario_max(2)] obtain c where
    c: "analyse [0, 10, 2000, 3000000] = Shown c" "bins c = bins_of 22"
       "hist c = np_histogram [0, 10, 2000, 3000000] (bins_of 22)"
       "files c = length [0, 10, 2000, 3000000 :: int]"
       "mean_text c = ''Mean: '' @ numfmt (PyFloat (mean [0, 10, 2000, 3000000]))"
    by blast
  have h: "hist c = [1, 1, 0, 0, 0, 0, 0, 1, 0, 0, 0, 0, 0, 0, 0, 0, 0, 0, 1]"
    using c(3) by (simp only: scenario_bins scenario_hist)
  have t: "mean_text c = ''Mean: 732.91K''"
    using c(5) by (simp only: scenario_mean) simp
  have "files c = 4" using c(4) by simp
  with m c(1) c(2) h t scenario_load scenario_max scenario_mean scenario_bins
  show ?thesis by simp
qed

text \<open>
  C10.  For every integer \<open>n\<close> of at least \<open>1024 ^ 5\<close> the loop of the formatter runs
  five times and the result is the decimal representation of \<open>n div 1024 ^ 5\<close> followed by
  \<open>P\<close>; from \<open>1024 ^ 6\<close> on the number printed is itself at least 1024, as in \<open>1024P\<close> for
  \<open>2 ^ 60\<close>.  For no input does the loop run more than five times, so no mark after
  \<open>P\<close> is printed.
\<close>

theorem numfmt_suffix_capped_at_P:
  "1024 ^ 5 \<le> n \<Longrightarrow>
   numfmt_loop (PyInt n) 0 = (PyInt (n div 1024 ^ 5), 5) \<and>
   numfmt (PyInt n) = str_int (n div 1024 ^ 5) @ ''P'' \<and>
   (1024 ^ 6 \<le> n \<longrightarrow> 1024 \<le> n div 1024 ^ 5) \<and>
   numfmt (PyInt (2 ^ 60)) = ''1024P'' \<and>
   snd (numfmt_loop s 0) \<le> 5"
proof -
  assume big: "1024 ^ 5 \<le> n"
  have "numfmt_loop (PyInt n) 0 = numfmt_loop (PyInt (n div 1024 ^ 5)) 5"
    using loop_int_big[of 5 n 0] big by simp
  also have "\<dots> = (PyInt (n div 1024 ^ 5), 5)"
    by (subst numfmt_loop.simps) (simp add: marks_def)
  finally have l: "numfmt_loop (PyInt n) 0 = (PyInt (n div 1024 ^ 5), 5)" .
  then have f: "numfmt (PyInt n) = str_int (n div 1024 ^ 5) @ ''P''"
    by (simp add: numfmt_def mark_of_values)
  have g: "1024 ^ 6 \<le> n \<longrightarrow> 1024 \<le> n div 1024 ^ 5"
  proof
    assume "1024 ^ 6 \<le> n"
    then have "(1024 ^ 6) div 1024 ^ 5 \<le> n div (1024 ^ 5 :: int)"
      by (intro zdiv_mono1) simp_all
    then show "1024 \<le> n div 1024 ^ 5" by simp
  qed
  have e: "numfmt (PyInt (2 ^ 60)) = ''1024P''" by code_simp
  have "snd (numfmt_loop s 0) \<le> 5" using loop_count_bound[of s 0] by simp
  with l f g e show ?thesis by blast
qed

theorem numfmt_suffix_capped_at_P_witness:
  "(1024 ^ 5 \<le> (2 ^ 60 :: int)) \<and>
   numfmt_loop (PyInt (2 ^ 60)) 0 = (PyInt (2 ^ 60 div 1024 ^ 5), 5) \<and>
   numfmt (PyInt (2 ^ 60)) = ''1024P'' \<and>
   snd (numfmt_loop (PyFloat 1536) 0) \<le> 5"
proof -
  have h: "1024 ^ 5 \<le> (2 ^ 60 :: int)" by simp
  show ?thesis using h numfmt_suffix_capped_at_P[OF h, of "PyFloat 1536"] str_int_1024 by simp
qed

text \<open>
  C1, at the input where the code departs from it.  A file with the single line
  \<open>4294967296 big.iso\<close> is read as one sample; the last edge is \<open>2 ^ 31\<close>, the sample is
  above it and is counted in no bucket: the counts add up to 0 and not to 1.
\<close>

theorem histogram_loses_sample_above_last_edge:
  "(case main [''filesizehistogram.py'', ''sizes.txt'']
           (\<lambda>p. if p = ''sizes.txt'' then Some [''4294967296 big.iso\<newline>''] else None) of
      Shown c \<Rightarrow> files c = 1 \<and> last (bins c) = 2147483648 \<and> sum_list (hist c) = 0
    | _ \<Rightarrow> False)"
proof -
  let ?fs = "\<lambda>p. if p = ''sizes.txt'' then Some [''4294967296 big.iso\<newline>''] else None"
  have m: "main [''filesizehistogram.py'', ''sizes.txt''] ?fs = analyse [4294967296]"
    by (rule main_reads[OF _ _ big_file_load]) simp_all
  from analyse_fields[OF big_file_max] obtain c where
    c: "analyse [4294967296] = Shown c" "bins c = bins_of 31"
       "hist c = np_histogram [4294967296] (bins_of 31)"
       "files c = length [4294967296 :: int]"
    by blast
  have h: "sum_list (hist c) = 0"
    using c(3) by (simp only: bins_31 big_file_hist) simp
  have l: "last (bins c) = 2147483648"
    using c(2) by (simp only: bins_31) simp
  from m c(1) c(4) h l show ?thesis by simp
qed

text \<open>
  C2, at the input where the code departs from it.  Of the two samples \<open>2 ^ 31\<close> and
  \<open>2 ^ 32\<close>, both at or above the last edge \<open>2 ^ 31\<close>, the last bucket counts only the
  first: the last bin of the histogram is closed at the last edge and not open-ended.
\<close>

theorem sample_above_cap_missing_from_last_bucket:
  "load [''2147483648 a\<newline>'', ''4294967296 b\<newline>''] = Inr [2147483648, 4294967296] \<and>
   (case analyse [2147483648, 4294967296] of
      Shown c \<Rightarrow> last (bins c) = 2147483648 \<and> last (hist c) = 1 \<and>
                 in_bin (bins c) (length (hist c) - 1) 2147483648 \<and>
                 \<not> in_bin (bins c) (length (hist c) - 1) 4294967296
    | _ \<Rightarrow> False)"
proof -
  from analyse_fields[OF two_big_max] obtain c where
    c: "analyse [2147483648, 4294967296] = Shown c" "bins c = bins_of 31"
       "hist c = np_histogram [2147483648, 4294967296] (bins_of 31)"
    by blast
  have b: "bins c = [0, 1, 32, 64, 128, 256, 512, 1024, 2048, 4096, 8192, 16384, 32768,
      65536, 131072, 262144, 524288, 1048576, 2097152, 4194304, 8388608,
      16777216, 33554432, 67108864, 134217728, 268435456, 536870912,
      1073741824, 2147483648]"
    using c(2) by (simp only: bins_31)
  have h: "hist c =
      [0, 0, 0, 0, 0, 0, 0, 0, 0, 0, 0, 0, 0, 0, 0, 0, 0, 0, 0, 0, 0, 0, 0, 0, 0, 0, 0, 1]"
    using c(3) by (simp only: bins_31 two_big_hist)
  have n: "length (hist c) - 1 = 27" by (simp add: h)
  have l: "last (bins c) = 2147483648" by (simp add: b)
  have k: "last (hist c) = 1" by (simp add: h)
  have i: "in_bin (bins c) (length (hist c) - 1) 2147483648"
          "\<not> in_bin (bins c) (length (hist c) - 1) 4294967296"
    unfolding n b by (rule two_big_in_bin)+
  from c(1) l k i two_big_load show ?thesis by simp
qed

text \<open>
  C3, at the input where the code departs from it.  For the samples 32, 32 and 64 the
  median is 32, which is the edge of index 2; the three samples are counted in bucket 2,
  the bucket that starts at 32, and the marker of the median is put at index 1.
\<close>

theorem median_on_edge_marked_in_preceding_bucket:
  "load [''32 a\<newline>'', ''32 b\<newline>'', ''64 c\<newline>''] = Inr [32, 32, 64] \<and>
   median [32, 32, 64] = 32 \<and>
   (case analyse [32, 32, 64] of
      Shown c \<Rightarrow> bins c = [0, 1, 32, 64] \<and> hist c = [0, 0, 3] \<and> bmedian c = 1
    | _ \<Rightarrow> False)"
proof -
  from analyse_fields[OF edge_median_parts(1)] obtain c where
    c: "analyse [32, 32, 64] = Shown c" "bins c = bins_of 6"
       "hist c = np_histogram [32, 32, 64] (bins_of 6)"
       "bmedian c = int (bisect_left (bins_of 6) (median [32, 32, 64])) - 1"
    by blast
  have b: "bins c = [0, 1, 32, 64]" using c(2) by (simp only: edge_median_parts)
  have h: "hist c = [0, 0, 3]" using c(3) by (simp only: edge_median_parts)
  have d: "bmedian c = 1" using c(4) by (simp add: edge_median_parts)
  from c(1) b h d edge_median_load edge_median_parts(4) show ?thesis by simp
qed

text \<open>
  C4, at the input where the code departs from it.  A file with the single line
  \<open>0 empty\<close> has the maximum 0, and the logarithm raises; with the single sample 1 the
  edges are 0 and 1 only.
\<close>

theorem zero_max_raises_math_domain_error:
  "main [''filesizehistogram.py'', ''sizes.txt'']
        (\<lambda>p. if p = ''sizes.txt'' then Some [''0 empty\<newline>''] else None) =
     Uncaught MathDomainError \<and>
   (case analyse [1] of Shown c \<Rightarrow> bins c = [0, 1] | _ \<Rightarrow> False)"
proof -
  let ?fs = "\<lambda>p. if p = ''sizes.txt'' then Some [''0 empty\<newline>''] else None"
  have "main [''filesizehistogram.py'', ''sizes.txt''] ?fs = analyse [0]"
    by (rule main_reads[OF _ _ zero_file_parts(1)]) simp_all
  then have m: "main [''filesizehistogram.py'', ''sizes.txt''] ?fs = Uncaught MathDomainError"
    by (simp add: analyse_raises[OF zero_file_parts(2)])
  from analyse_fields[OF zero_file_parts(3)] obtain c where
    c: "analyse [1] = Shown c" "bins c = bins_of 0"
    by blast
  have "bins c = [0, 1]" using c(2) by (simp only: zero_file_parts)
  with m c(1) show ?thesis by simp
qed




text \<open>
  C6 does not hold as stated: for a file without lines the loader returns the empty
  sample set without complaint, and the run ends with the error that the maximum raises.
\<close>

theorem empty_input_counterexample:
  "load [] = Inr [] \<and> data_max [] = Inl ZeroSizeReduction \<and>
   main [''filesizehistogram.py'', ''empty.txt'']
        (\<lambda>p. if p = ''empty.txt'' then Some [] else None) = Uncaught ZeroSizeReduction"
proof -
  have "main [''filesizehistogram.py'', ''empty.txt'']
          (\<lambda>p. if p = ''empty.txt'' then Some [] else None) = Uncaught ZeroSizeReduction"
    by (simp add: main_def Let_def analyse_def maxdatalog2_def data_max_def)
  then show ?thesis by (simp add: data_max_def)
qed

text \<open>
  C6, amended.  If the file named on the command line (or the standard input, for \<open>-\<close>)
  has no lines, the loader succeeds with the empty sample set and the run fails in the
  computation of the maximum, the first statistic, with the error of the reduction of an
  empty array; there is no check of its own for the empty input.
\<close>

theorem empty_input_fails_in_max:
  "fs (if f = ''-'' then ''/dev/stdin'' else f) = Some [] \<Longrightarrow>
   load [] = Inr [] \<and> main (p # f # rest) fs = Uncaught ZeroSizeReduction"
  by (simp add: main_def Let_def analyse_def maxdatalog2_def data_max_def)

theorem empty_input_fails_in_max_witness:
  "(\<lambda>p. if p = ''/dev/stdin'' then Some [] else None)
      (if ''-'' = ''-'' then ''/dev/stdin'' else ''-'') = Some ([] :: string list) \<and>
   main [''filesizehistogram.py'', ''-''] (\<lambda>p. if p = ''/dev/stdin'' then Some [] else None) =
     Uncaught ZeroSizeReduction"
proof -
  have h: "(\<lambda>p. if p = ''/dev/stdin'' then Some [] else None)
      (if ''-'' = ''-'' then ''/dev/stdin'' else ''-'') = Some ([] :: string list)" by simp
  show ?thesis
    using h empty_input_fails_in_max[of "\<lambda>p. if p = ''/dev/stdin'' then Some [] else None"
               "''-''" "''filesizehistogram.py''" "[]"]
    by simp
qed

text \<open>
  C7 does not hold as stated: without an argument the script prints three lines, not
  two, before it exits with status 1.
\<close>

theorem usage_counterexample:
  "main [''filesizehistogram.py''] (\<lambda>p. None) = SysExit usage 1 \<and> length usage = 3"
  by (simp add: main_def usage_def)

text \<open>
  C7, amended.  Called with no input argument, the script prints a usage message of
  exactly three lines to the standard output and exits with status 1.
\<close>

theorem usage_three_lines_exit_1:
  "length argv < 2 \<Longrightarrow>
   (\<exists>l1 l2 l3. main argv fs = SysExit [l1, l2, l3] 1 \<and>
      l1 = ''Usage: filesizehistogram.py input'')"
  by (simp add: main_def usage_def)

theorem usage_three_lines_exit_1_witness:
  "length [''filesizehistogram.py''] < 2 \<and>
   (\<exists>l1 l2 l3. main [''filesizehistogram.py''] (\<lambda>p. None) = SysExit [l1, l2, l3] 1 \<and>
      l1 = ''Usage: filesizehistogram.py input'')"
proof -
  have h: "length [''filesizehistogram.py''] < 2" by simp
  show ?thesis using h usage_three_lines_exit_1[OF h, of "\<lambda>p. None"] by blast
qed

end
